theory Spec2Isabelle
  imports Main
begin

section \<open>JavaScript strings and arrays\<close>

text \<open>
  Strings are lists of characters. The few methods of the JavaScript string and array
  prototypes that the acquisition engine calls are written out here, named after the
  method they stand for.
\<close>

fun startsWith :: "string \<Rightarrow> string \<Rightarrow> bool" where
  "startsWith s [] = True"
| "startsWith [] (p # ps) = False"
| "startsWith (c # cs) (p # ps) = (c = p \<and> startsWith cs ps)"

definition endsWith :: "string \<Rightarrow> string \<Rightarrow> bool" where
  "endsWith s p = startsWith (rev s) (rev p)"

fun includesStr :: "string \<Rightarrow> string \<Rightarrow> bool" where
  "includesStr [] p = (p = [])"
| "includesStr (c # cs) p = (startsWith (c # cs) p \<or> includesStr cs p)"

text \<open>\<open>Array.prototype.slice(start, end)\<close>: a negative index counts from the end.\<close>

definition slice_index :: "nat \<Rightarrow> int \<Rightarrow> nat" where
  "slice_index len k = (if k < 0 then nat (max (int len + k) 0) else min (nat k) len)"

definition slice :: "'a list \<Rightarrow> int \<Rightarrow> int \<Rightarrow> 'a list" where
  "slice xs start stop =
     (let i = slice_index (length xs) start; j = slice_index (length xs) stop
      in take (j - i) (drop i xs))"

text \<open>Decimal rendering of a number inside a template literal.\<close>

definition digit_char :: "nat \<Rightarrow> char" where
  "digit_char d = char_of (48 + d)"

function string_of_nat :: "nat \<Rightarrow> string" where
  "string_of_nat n =
     (if n < 10 then [digit_char n] else string_of_nat (n div 10) @ [digit_char (n mod 10)])"
  by pat_completeness auto
termination
  by (relation "measure id") auto

definition string_of_int :: "int \<Rightarrow> string" where
  "string_of_int i = (if i < 0 then CHR ''-'' # string_of_nat (nat (- i)) else string_of_nat (nat i))"

section \<open>The URL validator\<close>

subsection \<open>Data\<close>

record ValidationResult =
  url :: string
  valid :: bool
  status :: int
  finalUrl :: "string option"
  error :: "string option"
  checkedAt :: int

text \<open>Every field of the options object is optional; an absent field is \<open>None\<close>.\<close>

record ValidationOptions =
  concurrency :: "int option"
  timeout :: "int option"
  maxRedirects :: "int option"
  retries :: "int option"

definition DEFAULT_concurrency :: int where "DEFAULT_concurrency = 10"
definition DEFAULT_timeout :: int where "DEFAULT_timeout = 5000"
definition DEFAULT_maxRedirects :: int where "DEFAULT_maxRedirects = 3"
definition DEFAULT_retries :: int where "DEFAULT_retries = 1"

text \<open>The destructuring \<open>{ ...DEFAULT_CONFIG, ...options }\<close>, field by field.\<close>

definition cfg_concurrency :: "ValidationOptions \<Rightarrow> int" where
  "cfg_concurrency opts = (case concurrency opts of None \<Rightarrow> DEFAULT_concurrency | Some c \<Rightarrow> c)"

definition cfg_timeout :: "ValidationOptions \<Rightarrow> int" where
  "cfg_timeout opts = (case timeout opts of None \<Rightarrow> DEFAULT_timeout | Some t \<Rightarrow> t)"

definition cfg_maxRedirects :: "ValidationOptions \<Rightarrow> int" where
  "cfg_maxRedirects opts = (case maxRedirects opts of None \<Rightarrow> DEFAULT_maxRedirects | Some m \<Rightarrow> m)"

definition cfg_retries :: "ValidationOptions \<Rightarrow> int" where
  "cfg_retries opts = (case retries opts of None \<Rightarrow> DEFAULT_retries | Some r \<Rightarrow> r)"

definition MAX_CACHE_SIZE :: nat where "MAX_CACHE_SIZE = 1000"
definition CACHE_TTL :: int where "CACHE_TTL = 5 * 60 * 1000"

subsection \<open>The platform: network and URL class\<close>

text \<open>
  What \<open>fetch\<close> can answer: a response, of which the validator reads the status and the
  \<open>Location\<close> header, or a thrown value. A thrown value is a \<open>TypeError\<close> with its
  message, another \<open>Error\<close> with its name and message, or something that is no
  \<open>Error\<close> at all.
\<close>

datatype http_method = HEAD | GET

datatype thrown = TypeError string | Error string string | NonError

datatype reply = Response int "string option" | Throws thrown

type_synonym request = "http_method \<times> string"

text \<open>
  The network is a parameter: given the requests issued so far and a new request, it
  tells after how many milliseconds the request settles and how. The second parameter
  stands for \<open>new URL(location, new URL(url).origin).href\<close>, \<open>None\<close> where one of the
  two constructors throws.
\<close>

record platform =
  network :: "request list \<Rightarrow> request \<Rightarrow> nat \<times> reply"
  resolveHref :: "string \<Rightarrow> string \<Rightarrow> string option"

subsection \<open>State: the cache, the clock and the request log\<close>

record cache_entry =
  result :: ValidationResult
  expiresAt :: int

text \<open>
  The \<open>Map\<close> is an association list in insertion order. \<open>now\<close> is what \<open>Date.now()\<close>
  returns; only the network and the timers let it advance. \<open>requests\<close> records every
  call of \<open>fetch\<close>.
\<close>

record vstate =
  validationCache :: "(string \<times> cache_entry) list"
  now :: int
  requests :: "request list"

definition map_delete :: "string \<Rightarrow> (string \<times> 'v) list \<Rightarrow> (string \<times> 'v) list" where
  "map_delete k m = filter (\<lambda>kv. fst kv \<noteq> k) m"

fun map_set :: "string \<Rightarrow> 'v \<Rightarrow> (string \<times> 'v) list \<Rightarrow> (string \<times> 'v) list" where
  "map_set k v [] = [(k, v)]"
| "map_set k v (kv # m) = (if fst kv = k then (k, v) # m else kv # map_set k v m)"

definition cleanCache :: "vstate \<Rightarrow> vstate" where
  "cleanCache s =
     s\<lparr>validationCache := filter (\<lambda>kv. \<not> expiresAt (snd kv) < now s) (validationCache s)\<rparr>"

definition getCached :: "string \<Rightarrow> vstate \<Rightarrow> ValidationResult option \<times> vstate" where
  "getCached u s =
     (case map_of (validationCache s) u of
        Some cached \<Rightarrow>
          if expiresAt cached > now s then (Some (result cached), s)
          else (None, s\<lparr>validationCache := map_delete u (validationCache s)\<rparr>)
      | None \<Rightarrow> (None, s\<lparr>validationCache := map_delete u (validationCache s)\<rparr>))"

definition evictOldest :: "vstate \<Rightarrow> vstate" where
  "evictOldest s =
     (if length (validationCache s) \<ge> MAX_CACHE_SIZE then
        (let entriesToRemove = length (validationCache s) - MAX_CACHE_SIZE + 1;
             keysToRemove = take entriesToRemove (map fst (validationCache s))
         in s\<lparr>validationCache := fold map_delete keysToRemove (validationCache s)\<rparr>)
      else s)"

definition setCache :: "string \<Rightarrow> ValidationResult \<Rightarrow> vstate \<Rightarrow> vstate" where
  "setCache u r s =
     (let s1 = (if length (validationCache s) \<ge> MAX_CACHE_SIZE then evictOldest (cleanCache s) else s)
      in s1\<lparr>validationCache :=
            map_set u \<lparr>result = r, expiresAt = now s1 + CACHE_TTL\<rparr> (validationCache s1)\<rparr>)"

subsection \<open>One probe\<close>

text \<open>
  \<open>fetch\<close> with an \<open>AbortController\<close> whose timer fires after \<open>timeout\<close> milliseconds:
  a request that settles before the timer gives its reply, any other is aborted when
  the timer fires and throws an \<open>AbortError\<close>.
\<close>

definition fetch :: "platform \<Rightarrow> int \<Rightarrow> http_method \<Rightarrow> string \<Rightarrow> vstate \<Rightarrow> reply \<times> vstate" where
  "fetch env tmo m u s =
     (let (latency, r) = network env (requests s) (m, u);
          s1 = s\<lparr>requests := requests s @ [(m, u)]\<rparr>
      in if int latency < tmo then (r, s1\<lparr>now := now s + int latency\<rparr>)
         else (Throws (Error ''AbortError'' ''This operation was aborted''),
               s1\<lparr>now := now s + max 0 tmo\<rparr>))"

text \<open>
  The \<open>HEAD\<close> request and, when it is answered 405 or 501, the ranged \<open>GET\<close>. \<open>Inl\<close> is
  the value that reaches the \<open>catch\<close> block.
\<close>

definition probe :: "platform \<Rightarrow> int \<Rightarrow> string \<Rightarrow> vstate \<Rightarrow> (thrown + int \<times> string option) \<times> vstate" where
  "probe env tmo u s =
     (case fetch env tmo HEAD u s of
        (Throws e, s1) \<Rightarrow> (Inl e, s1)
      | (Response st loc, s1) \<Rightarrow>
          if st = 405 \<or> st = 501 then
            (case fetch env tmo GET u s1 of
               (Throws e, s2) \<Rightarrow> (Inl e, s2)
             | (Response st' loc', s2) \<Rightarrow> (Inr (st', loc'), s2))
          else (Inr (st, loc), s1))"

text \<open>The redirect target: an absolute location is taken as it is.\<close>

definition redirectTarget :: "platform \<Rightarrow> string \<Rightarrow> string \<Rightarrow> string" where
  "redirectTarget env u location =
     (if \<not> startsWith location ''http'' then
        (case resolveHref env u location of Some href \<Rightarrow> href | None \<Rightarrow> location)
      else location)"

text \<open>The \<open>catch\<close> block: the message kept as \<open>lastError\<close>, and whether the loop goes on.\<close>

datatype caught = Retry string | Break string

definition classify :: "thrown \<Rightarrow> caught" where
  "classify e =
     (case e of
        TypeError msg \<Rightarrow>
          if includesStr msg ''fetch'' then Retry (''Network error: '' @ msg) else Break msg
      | Error name msg \<Rightarrow>
          if name = ''AbortError'' then Break ''Request timeout''
          else if includesStr msg ''fetch'' then Retry (''HTTP request failed: '' @ msg)
          else Break msg
      | NonError \<Rightarrow> Break ''Unknown error'')"

text \<open>Building a result, storing it and returning it.\<close>

definition finish :: "string \<Rightarrow> bool \<Rightarrow> int \<Rightarrow> string option \<Rightarrow> string option \<Rightarrow> vstate \<Rightarrow> ValidationResult \<times> vstate" where
  "finish u v st fin err s =
     (let r = \<lparr>url = u, valid = v, status = st, finalUrl = fin, error = err, checkedAt = now s\<rparr>
      in (r, setCache u r s))"

definition failed :: "string \<Rightarrow> string option \<Rightarrow> vstate \<Rightarrow> ValidationResult \<times> vstate" where
  "failed u lastError s =
     finish u False 0 None
       (Some (case lastError of None \<Rightarrow> ''Request failed''
              | Some msg \<Rightarrow> if msg = [] then ''Request failed'' else msg)) s"

definition orElse :: "string option \<Rightarrow> string \<Rightarrow> string" where
  "orElse a b = (case a of None \<Rightarrow> b | Some x \<Rightarrow> if x = [] then b else x)"

subsection \<open>validateUrl\<close>

function validateUrl :: "platform \<Rightarrow> string \<Rightarrow> ValidationOptions \<Rightarrow> vstate \<Rightarrow> ValidationResult \<times> vstate"
  and attempts :: "platform \<Rightarrow> string \<Rightarrow> ValidationOptions \<Rightarrow> int \<Rightarrow> string option \<Rightarrow> vstate \<Rightarrow> ValidationResult \<times> vstate"
where
  "validateUrl env u opts s =
     (case getCached u s of
        (Some cached, s1) \<Rightarrow> (cached, s1)
      | (None, s1) \<Rightarrow> attempts env u opts 0 None s1)"
| "attempts env u opts attempt lastError s =
     (if attempt \<le> cfg_retries opts then
        (case probe env (cfg_timeout opts) u s of
           (Inr (st, loc), s1) \<Rightarrow>
             if 300 \<le> st \<and> st < 400 then
               (case loc of
                  None \<Rightarrow> finish u False st None (Some ''Redirect with no Location header'') s1
                | Some location \<Rightarrow>
                    if location = [] then
                      finish u False st None (Some ''Redirect with no Location header'') s1
                    else if cfg_maxRedirects opts > 0 then
                      (case validateUrl env (redirectTarget env u location)
                              (opts\<lparr>maxRedirects := Some (cfg_maxRedirects opts - 1)\<rparr>) s1 of
                         (redirectResult, s2) \<Rightarrow>
                           finish u (valid redirectResult) st
                             (Some (orElse (finalUrl redirectResult) (redirectTarget env u location)))
                             (error redirectResult) s2)
                    else finish u False st None (Some ''Too many redirects'') s1)
             else
               finish u (200 \<le> st \<and> st < 300) st None
                 (if 200 \<le> st \<and> st < 300 then None else Some (''HTTP '' @ string_of_int st)) s1
         | (Inl e, s1) \<Rightarrow>
             (case classify e of
                Break msg \<Rightarrow> failed u (Some msg) s1
              | Retry msg \<Rightarrow>
                  attempts env u opts (attempt + 1) (Some msg)
                    (if attempt < cfg_retries opts \<and> \<not> includesStr msg ''timeout''
                     then s1\<lparr>now := now s1 + 500\<rparr> else s1)))
      else failed u lastError s)"
  by pat_completeness auto
termination
  by (relation "inv_image (less_than <*lex*> less_than)
        (\<lambda>x. case x of
           Inl (env, u, opts, s) \<Rightarrow> (nat (cfg_maxRedirects opts), nat (cfg_retries opts + 1) + 1)
         | Inr (env, u, opts, attempt, lastError, s) \<Rightarrow>
             (nat (cfg_maxRedirects opts), nat (cfg_retries opts + 1 - attempt)))")
     (auto simp: cfg_maxRedirects_def cfg_retries_def)

declare validateUrl.simps [simp del] attempts.simps [simp del] string_of_nat.simps [simp del]

text \<open>The recursive call of the redirect branch, named for the statements below.\<close>

definition followed :: "platform \<Rightarrow> string \<Rightarrow> ValidationOptions \<Rightarrow> string \<Rightarrow> vstate \<Rightarrow> ValidationResult \<times> vstate" where
  "followed env u opts location s =
     validateUrl env (redirectTarget env u location)
       (opts\<lparr>maxRedirects := Some (cfg_maxRedirects opts - 1)\<rparr>) s"

text \<open>The clock moving on between two calls.\<close>

definition later :: "int \<Rightarrow> vstate \<Rightarrow> vstate" where
  "later d s = s\<lparr>now := now s + d\<rparr>"

subsection \<open>validateUrls\<close>

text \<open>
  \<open>Promise.all(batch.map(url => validateUrl(url, options)))\<close>: the results come in the
  order of the batch. The members of one batch are run here one after the other, left
  to right; how the runtime interleaves them between their network waits is not part of
  this model.
\<close>

fun validateBatch :: "platform \<Rightarrow> string list \<Rightarrow> ValidationOptions \<Rightarrow> vstate \<Rightarrow> ValidationResult list \<times> vstate" where
  "validateBatch env [] opts s = ([], s)"
| "validateBatch env (u # us) opts s =
     (case validateUrl env u opts s of
        (r, s1) \<Rightarrow> (case validateBatch env us opts s1 of (rs, s2) \<Rightarrow> (r # rs, s2)))"



subsection \<open>An example platform\<close>

text \<open>
  A small network on which the validator can be run: a redirect, a redirect to itself,
  a server that never answers in time, one that rejects \<open>HEAD\<close> and then hangs, a
  missing page, a redirect to the first redirect, and no connection for anything else.
\<close>

definition example_network :: "request list \<Rightarrow> request \<Rightarrow> nat \<times> reply" where
  "example_network history req =
     (if req = (HEAD, ''https://a.example/old'') then (120, Response 301 (Some ''/new''))
      else if req = (HEAD, ''https://a.example/new'') then (80, Response 200 None)
      else if req = (HEAD, ''https://a.example/loop'') then (50, Response 302 (Some ''https://a.example/loop''))
      else if req = (HEAD, ''https://a.example/slow'') then (60000, Response 200 None)
      else if req = (HEAD, ''https://a.example/nohead'') then (4000, Response 405 None)
      else if req = (GET, ''https://a.example/nohead'') then (60000, Response 200 None)
      else if req = (HEAD, ''https://a.example/missing'') then (30, Response 404 None)
      else if req = (HEAD, ''https://a.example/first'') then (40, Response 302 (Some ''/old''))
      else (10, Throws (TypeError ''fetch failed'')))"

definition example_platform :: platform where
  "example_platform =
     \<lparr>network = example_network,
      resolveHref = (\<lambda>u location.
        if startsWith location ''/'' then Some (''https://a.example'' @ location) else None)\<rparr>"

definition no_options :: ValidationOptions where
  "no_options = \<lparr>concurrency = None, timeout = None, maxRedirects = None, retries = None\<rparr>"

definition fresh :: vstate where
  "fresh = \<lparr>validationCache = [], now = 0, requests = []\<rparr>"

subsection \<open>Predicates for the statements about the validator\<close>

text \<open>
  What holds of every result the validator builds, and of a cache that holds only such
  results, each under its own URL.
\<close>

definition wellFormed :: "ValidationResult \<Rightarrow> bool" where
  "wellFormed r =
     ((valid r \<longrightarrow> error r = None)
      \<and> (\<not> valid r \<longrightarrow> error r \<noteq> None \<and> error r \<noteq> Some [])
      \<and> (finalUrl r \<noteq> None \<longrightarrow> 300 \<le> status r \<and> status r < 400)
      \<and> (finalUrl r = None \<longrightarrow> valid r = (200 \<le> status r \<and> status r < 300)))"

definition cacheWellFormed :: "vstate \<Rightarrow> bool" where
  "cacheWellFormed s =
     (\<forall>kv \<in> set (validationCache s). url (result (snd kv)) = fst kv \<and> wellFormed (result (snd kv)))"

text \<open>
  A URL that cannot be probed: whatever has been requested before, the \<open>HEAD\<close> request
  for it throws or does not settle within the timeout.
\<close>

definition unreachable :: "platform \<Rightarrow> int \<Rightarrow> string \<Rightarrow> bool" where
  "unreachable env tmo u =
     (\<forall>history. (\<exists>e. snd (network env history (HEAD, u)) = Throws e)
                \<or> \<not> int (fst (network env history (HEAD, u))) < tmo)"




section \<open>The crawler\<close>

subsection \<open>More of the string prototype\<close>

text \<open>
  Characters are bytes here, so \<open>toLowerCase\<close> folds the ASCII letters and the white
  space of \<open>trim\<close> and of the class \<open>\s\<close> is the ASCII white space.
\<close>

definition lowerChar :: "char \<Rightarrow> char" where
  "lowerChar c =
     (case map_of (zip ''ABCDEFGHIJKLMNOPQRSTUVWXYZ'' ''abcdefghijklmnopqrstuvwxyz'') c of
        Some l \<Rightarrow> l
      | None \<Rightarrow> c)"

definition toLowerCase :: "string \<Rightarrow> string" where
  "toLowerCase s = map lowerChar s"

definition isSpace :: "char \<Rightarrow> bool" where
  "isSpace c = (c \<in> {CHR '' '', CHR 0x09, CHR 0x0A, CHR 0x0B, CHR 0x0C, CHR 0x0D})"

definition trim :: "string \<Rightarrow> string" where
  "trim s = rev (dropWhile isSpace (rev (dropWhile isSpace s)))"



text \<open>\<open>split("/").filter(Boolean)\<close>: the non-empty pieces between slashes.\<close>

fun segmentsFrom :: "string \<Rightarrow> string \<Rightarrow> string list" where
  "segmentsFrom acc [] = (if acc = [] then [] else [acc])"
| "segmentsFrom acc (c # cs) =
     (if c = CHR ''/'' then (if acc = [] then [] else [acc]) @ segmentsFrom [] cs
      else segmentsFrom (acc @ [c]) cs)"

definition pathSegments :: "string \<Rightarrow> string list" where
  "pathSegments path = segmentsFrom [] path"

subsection \<open>The URL class\<close>

text \<open>
  The platform's \<open>URL\<close> class, as far as the crawler reads it, for absolute URLs of the
  form \<open>scheme://[userinfo@]host[:port][/path][?query][#fragment]\<close> with scheme
  \<open>http\<close> or \<open>https\<close>. For any other string the constructor is taken to throw
  (\<open>None\<close>). Scheme and host are lower-cased and a default port is dropped; paths are
  not normalised any further.
\<close>

record URL =
  protocol :: string
  hostname :: string
  port :: string
  pathname :: string

definition origin :: "URL \<Rightarrow> string" where
  "origin u = protocol u @ ''//'' @ hostname u @ (if port u = [] then [] else CHR '':'' # port u)"

definition isDigit :: "char \<Rightarrow> bool" where
  "isDigit c = (c \<in> set ''0123456789'')"

definition parseURL :: "string \<Rightarrow> URL option" where
  "parseURL s =
     (let scheme = toLowerCase (takeWhile (\<lambda>c. c \<noteq> CHR '':'') s);
          rest = dropWhile (\<lambda>c. c \<noteq> CHR '':'') s
      in if (scheme = ''http'' \<or> scheme = ''https'') \<and> startsWith rest ''://'' then
           (let afterSlashes = drop 3 rest;
                authority = takeWhile (\<lambda>c. c \<notin> set ''/?#'') afterSlashes;
                tail = dropWhile (\<lambda>c. c \<notin> set ''/?#'') afterSlashes;
                hostport = rev (takeWhile (\<lambda>c. c \<noteq> CHR ''@'') (rev authority));
                host = toLowerCase (takeWhile (\<lambda>c. c \<noteq> CHR '':'') hostport);
                portPart = drop 1 (dropWhile (\<lambda>c. c \<noteq> CHR '':'') hostport);
                path = takeWhile (\<lambda>c. c \<notin> set ''?#'') tail
            in if host = [] \<or> \<not> list_all isDigit portPart then None
               else Some \<lparr>protocol = scheme @ '':'', hostname = host,
                          port = (if (scheme = ''http'' \<and> portPart = ''80'')
                                     \<or> (scheme = ''https'' \<and> portPart = ''443'') then [] else portPart),
                          pathname = (if path = [] then ''/'' else path)\<rparr>)
         else None)"

subsection \<open>Constants of the crawler\<close>

definition MAX_PAGES_PER_URL :: nat where "MAX_PAGES_PER_URL = 8"
definition MAX_TOTAL_URLS :: nat where "MAX_TOTAL_URLS = 25"

definition VALUABLE_PATH_KEYWORDS :: "string list" where
  "VALUABLE_PATH_KEYWORDS =
     [''/api'', ''/reference'', ''/guide'', ''/tutorial'', ''/docs'', ''/documentation'',
      ''/getting-started'', ''/quickstart'', ''/examples'', ''/configuration'', ''/setup'',
      ''/install'', ''/sdk'', ''/cli'', ''/commands'', ''/overview'', ''/introduction'',
      ''/concepts'', ''/basics'', ''/advanced'', ''/authentication'', ''/models'', ''/actions'',
      ''/connections'', ''/deployment'']"

definition EXCLUDED_EXTENSIONS :: "string list" where
  "EXCLUDED_EXTENSIONS =
     [''.svg'', ''.png'', ''.jpg'', ''.jpeg'', ''.gif'', ''.ico'', ''.webp'', ''.css'', ''.js'',
      ''.json'', ''.xml'', ''.pdf'', ''.zip'', ''.tar'', ''.gz'', ''.mp4'', ''.mp3'', ''.woff'',
      ''.woff2'', ''.ttf'', ''.eot'']"

definition EXCLUDED_PATTERNS :: "string list" where
  "EXCLUDED_PATTERNS =
     [''/.vite/'', ''/assets/'', ''/static/'', ''/_next/'', ''/images/'', ''/fonts/'', ''/media/'',
      ''#'', ''?'']"

definition commonPaths :: "string list" where
  "commonPaths =
     [''/guides'', ''/guide'', ''/api'', ''/reference'', ''/docs'', ''/documentation'',
      ''/getting-started'', ''/quickstart'', ''/tutorial'', ''/tutorials'', ''/examples'',
      ''/concepts'', ''/basics'', ''/overview'', ''/introduction'', ''/authentication'',
      ''/configuration'', ''/installation'', ''/setup'']"

subsection \<open>Sets in insertion order\<close>

text \<open>A JavaScript \<open>Set\<close> of strings is a duplicate-free list in insertion order.\<close>

definition setAdd :: "string list \<Rightarrow> string \<Rightarrow> string list" where
  "setAdd xs x = (if x \<in> set xs then xs else xs @ [x])"

definition newSet :: "string list \<Rightarrow> string list" where
  "newSet xs = foldl setAdd [] xs"

subsection \<open>Link extraction\<close>

text \<open>
  One match of \<open>/\[([^\]]+)\]\(([^)]+)\)/\<close> at the head of the string: the second group
  and the length of the match. Both classes are negated single characters, so the
  greedy runs are the maximal ones.
\<close>

definition mdLinkAt :: "string \<Rightarrow> (string \<times> nat) option" where
  "mdLinkAt s =
     (case s of
        [] \<Rightarrow> None
      | c # t \<Rightarrow>
          if c \<noteq> CHR ''['' then None
          else
            (let text = takeWhile (\<lambda>x. x \<noteq> CHR '']'') t;
                 t1 = drop (length text) t
             in if text = [] \<or> \<not> startsWith t1 '']('' then None
                else
                  (let target = takeWhile (\<lambda>x. x \<noteq> CHR '')'') (drop 2 t1);
                       t2 = drop (length target) (drop 2 t1)
                   in if target = [] \<or> t2 = [] then None
                      else Some (target, 1 + length text + 2 + length target + 1))))"

text \<open>One match of \<open>/href=["']([^"']+)["']/\<close> at the head of the string.\<close>

definition isQuote :: "char \<Rightarrow> bool" where
  "isQuote c = (c = CHR 0x22 \<or> c = CHR 0x27)"

definition hrefAt :: "string \<Rightarrow> (string \<times> nat) option" where
  "hrefAt s =
     (if \<not> startsWith s ''href='' then None
      else
        (case drop 5 s of
           [] \<Rightarrow> None
         | q # t \<Rightarrow>
             if \<not> isQuote q then None
             else
               (let target = takeWhile (\<lambda>x. \<not> isQuote x) t;
                    t1 = drop (length target) t
                in if target = [] \<or> t1 = [] then None
                   else Some (target, 5 + 1 + length target + 1))))"

text \<open>
  The loop \<open>while ((match = regex.exec(text)) !== null)\<close> of a global regular
  expression: the leftmost match from the current position on, then on from its end.
  \<open>skip\<close> counts the characters still covered by the last match.
\<close>

fun execAll :: "(string \<Rightarrow> (string \<times> nat) option) \<Rightarrow> nat \<Rightarrow> string \<Rightarrow> string list" where
  "execAll matchAt skip [] = []"
| "execAll matchAt skip (c # cs) =
     (if skip > 0 then execAll matchAt (skip - 1) cs
      else
        (case matchAt (c # cs) of
           Some (captured, len) \<Rightarrow> captured # execAll matchAt (len - 1) cs
         | None \<Rightarrow> execAll matchAt 0 cs))"

text \<open>A relative link is put behind the origin of the base URL; \<open>None\<close> is \<open>continue\<close>.\<close>

definition absolutize :: "string \<Rightarrow> string \<Rightarrow> string option" where
  "absolutize baseUrl u =
     (if startsWith u ''/'' \<and> \<not> startsWith u ''//'' then
        (case parseURL baseUrl of None \<Rightarrow> None | Some base \<Rightarrow> Some (origin base @ u))
      else Some u)"

definition isHttp :: "string \<Rightarrow> bool" where
  "isHttp u = (startsWith u ''http://'' \<or> startsWith u ''https://'')"

definition mdLink :: "string \<Rightarrow> string \<Rightarrow> string list" where
  "mdLink baseUrl captured =
     (let u = trim captured
      in if u = [] then []
         else (case absolutize baseUrl u of
                 None \<Rightarrow> []
               | Some u' \<Rightarrow> if isHttp u' then [u'] else []))"

definition hrefLink :: "string \<Rightarrow> string \<Rightarrow> string list" where
  "hrefLink baseUrl captured =
     (let u = trim captured
      in if u = [] \<or> startsWith u ''#'' \<or> startsWith u ''javascript:'' then []
         else (case absolutize baseUrl u of
                 None \<Rightarrow> []
               | Some u' \<Rightarrow> if isHttp u' then [u'] else []))"

definition extractLinks :: "string \<Rightarrow> string \<Rightarrow> string list" where
  "extractLinks markdown baseUrl =
     newSet (concat (map (mdLink baseUrl) (execAll mdLinkAt 0 markdown))
             @ concat (map (hrefLink baseUrl) (execAll hrefAt 0 markdown)))"

subsection \<open>Link classification\<close>

definition isExcludedUrl :: "string \<Rightarrow> bool" where
  "isExcludedUrl u =
     (let lowerUrl = toLowerCase u
      in list_ex (\<lambda>ext. endsWith lowerUrl ext) EXCLUDED_EXTENSIONS
         \<or> list_ex (\<lambda>pattern. includesStr lowerUrl pattern) EXCLUDED_PATTERNS)"

definition isValuableLink :: "string \<Rightarrow> bool" where
  "isValuableLink u =
     (if isExcludedUrl u then False
      else
        (case parseURL (toLowerCase u) of
           None \<Rightarrow> False
         | Some urlObj \<Rightarrow>
             (let path = pathname urlObj
              in if list_ex (\<lambda>keyword. includesStr path keyword) VALUABLE_PATH_KEYWORDS then True
                 else if length path > 1 \<and> path \<noteq> ''/'' then
                   (let segments = pathSegments path
                    in if length segments > 0 then
                         (let lastSegment = last segments
                          in \<not> includesStr lastSegment ''.'' \<and> length lastSegment > 2
                             \<and> length lastSegment < 50)
                       else False)
                 else False)))"

definition isSameDomain :: "string \<Rightarrow> string \<Rightarrow> bool" where
  "isSameDomain url1 url2 =
     (case (parseURL url1, parseURL url2) of
        (Some u1, Some u2) \<Rightarrow> hostname u1 = hostname u2
      | _ \<Rightarrow> False)"

definition generateCommonDocPaths :: "string \<Rightarrow> string list" where
  "generateCommonDocPaths baseUrl =
     (case parseURL baseUrl of
        None \<Rightarrow> []
      | Some urlObj \<Rightarrow> map (\<lambda>path. origin urlObj @ path) commonPaths)"

subsection \<open>The fetcher\<close>

record ScrapedContent =
  sc_url :: string
  markdown :: string
  success :: bool
  sc_error :: "string option"
  isPaywalled :: "bool option"
  fallbackUsed :: "bool option"
  crawledAt :: int
  attachedPaywalledUrls :: "string list option"

text \<open>
  The scraping service is a parameter. \<open>startAndWait\<close> gives the markdown of a page
  (\<open>Inr\<close>) or the message of what the call throws (\<open>Inl\<close>); \<open>scoresAsPaywalled\<close> stands
  for \<open>calculatePaywallScore(markdown, url) >= PAYWALL_THRESHOLD\<close>; \<open>today\<close> is the
  time stamp put on every page. The field \<open>attachedPaywalledUrls\<close> of a page is the
  property \<open>_paywalledUrls\<close> that the crawler hangs on its first result.
\<close>

record hyperbrowser =
  apiKeyConfigured :: bool
  startAndWait :: "string \<Rightarrow> string + string"
  scoresAsPaywalled :: "string \<Rightarrow> string \<Rightarrow> bool"
  today :: int

definition SUBSTANTIAL_CONTENT_LENGTH :: nat where "SUBSTANTIAL_CONTENT_LENGTH = 1000"

definition scrapeUrl :: "hyperbrowser \<Rightarrow> string \<Rightarrow> string + ScrapedContent" where
  "scrapeUrl hb u =
     (if \<not> apiKeyConfigured hb then Inl ''HYPERBROWSER_API_KEY is not configured''
      else
        (case startAndWait hb u of
           Inr md \<Rightarrow>
             Inr \<lparr>sc_url = u, markdown = md,
                  success = (\<not> scoresAsPaywalled hb md u \<and> length md > 0),
                  sc_error = None, isPaywalled = Some (scoresAsPaywalled hb md u),
                  fallbackUsed = None, crawledAt = today hb, attachedPaywalledUrls = None\<rparr>
         | Inl msg \<Rightarrow>
             Inr \<lparr>sc_url = u, markdown = [], success = False, sc_error = Some msg,
                  isPaywalled = None, fallbackUsed = None, crawledAt = today hb,
                  attachedPaywalledUrls = None\<rparr>))"

text \<open>
  Every URL of the list is handed to \<open>scrapeUrl\<close> once, five at a time; a call that
  throws makes the whole batch throw.
\<close>

fun scrapeEach :: "hyperbrowser \<Rightarrow> string list \<Rightarrow> string + ScrapedContent list" where
  "scrapeEach hb [] = Inr []"
| "scrapeEach hb (u # us) =
     (case scrapeUrl hb u of
        Inl e \<Rightarrow> Inl e
      | Inr c \<Rightarrow> (case scrapeEach hb us of Inl e \<Rightarrow> Inl e | Inr cs \<Rightarrow> Inr (c # cs)))"

definition truthy :: "bool option \<Rightarrow> bool" where
  "truthy b = (b = Some True)"

definition scrapeUrls :: "hyperbrowser \<Rightarrow> string list \<Rightarrow> string + ScrapedContent list" where
  "scrapeUrls hb us =
     (case scrapeEach hb us of
        Inl e \<Rightarrow> Inl e
      | Inr rs \<Rightarrow>
          (let successfulResults = filter (\<lambda>r. success r \<and> length (markdown r) > 0) rs;
               paywalledResults = filter (\<lambda>r. truthy (isPaywalled r)) rs
           in if length successfulResults = 0 then
                (let substantialPaywalledResults =
                       filter (\<lambda>r. length (markdown r) \<ge> SUBSTANTIAL_CONTENT_LENGTH
                                     \<and> (sc_error r = None \<or> sc_error r = Some [])) paywalledResults
                 in if length substantialPaywalledResults > 0 then
                      Inr (map (\<lambda>r. r\<lparr>success := True, isPaywalled := Some True,
                                        fallbackUsed := Some True\<rparr>) substantialPaywalledResults)
                    else Inl ''Failed to scrape any URLs successfully.'')
              else Inr (successfulResults @ paywalledResults)))"

subsection \<open>recursiveCrawl\<close>

record crawl =
  allUrls :: "string list"
  crawledUrls :: "string list"
  results :: "ScrapedContent list"
  paywalledUrls :: "string list"

definition addCommonPath :: "string list \<Rightarrow> string \<Rightarrow> string list \<Rightarrow> string list" where
  "addCommonPath crawled path queue =
     (if path \<notin> set crawled \<and> path \<notin> set queue \<and> length queue < MAX_TOTAL_URLS
      then setAdd queue path else queue)"

text \<open>The body of the loop over the pages of phase 1.\<close>

definition processInitial :: "ScrapedContent \<Rightarrow> crawl \<Rightarrow> crawl" where
  "processInitial page st =
     (let st1 = st\<lparr>crawledUrls := setAdd (crawledUrls st) (sc_url page)\<rparr>
      in if truthy (isPaywalled page) then
           st1\<lparr>paywalledUrls := paywalledUrls st1 @ [sc_url page]\<rparr>
         else if success page \<and> length (markdown page) > 0 then
           (let st2 = st1\<lparr>results := results st1 @ [page]\<rparr>;
                extractedLinks = extractLinks (markdown page) (sc_url page);
                valuableLinks =
                  filter (\<lambda>link. isSameDomain link (sc_url page) \<and> isValuableLink link
                                  \<and> link \<notin> set (crawledUrls st2) \<and> link \<notin> set (allUrls st2))
                    extractedLinks;
                linksToAdd = slice valuableLinks 0 (int MAX_PAGES_PER_URL);
                st3 = st2\<lparr>allUrls := foldl setAdd (allUrls st2) linksToAdd\<rparr>
            in if length valuableLinks < 3 then
                 st3\<lparr>allUrls := fold (addCommonPath (crawledUrls st3))
                                   (generateCommonDocPaths (sc_url page)) (allUrls st3)\<rparr>
               else st3)
         else st1)"

definition initialBatch :: "string list \<Rightarrow> string list" where
  "initialBatch initialUrls = slice initialUrls 0 (int (min (length initialUrls) 5))"

text \<open>Phase 1; \<open>Inl\<close> when \<open>scrapeUrls\<close> throws, which ends the crawl.\<close>

definition phase1 :: "hyperbrowser \<Rightarrow> string list \<Rightarrow> string + crawl" where
  "phase1 hb initialUrls =
     (case scrapeUrls hb (initialBatch initialUrls) of
        Inl e \<Rightarrow> Inl e
      | Inr initialResults \<Rightarrow>
          Inr (fold processInitial initialResults
                 \<lparr>allUrls = newSet initialUrls, crawledUrls = [], results = [], paywalledUrls = []\<rparr>))"

definition additionalUrls :: "crawl \<Rightarrow> string list" where
  "additionalUrls st = filter (\<lambda>u. u \<notin> set (crawledUrls st)) (allUrls st)"

definition processAdditional :: "ScrapedContent \<Rightarrow> crawl \<Rightarrow> crawl" where
  "processAdditional page st =
     (if truthy (isPaywalled page) then st\<lparr>paywalledUrls := paywalledUrls st @ [sc_url page]\<rparr>
      else if success page \<and> length (markdown page) > 100 then st\<lparr>results := results st @ [page]\<rparr>
      else st)"

definition phase2 :: "hyperbrowser \<Rightarrow> crawl \<Rightarrow> crawl" where
  "phase2 hb st =
     (if length (additionalUrls st) > 0 then
        (case scrapeUrls hb (additionalUrls st) of
           Inr additionalContent \<Rightarrow> fold processAdditional additionalContent st
         | Inl e \<Rightarrow> st)
      else st)"

definition attachPaywalled :: "crawl \<Rightarrow> ScrapedContent list" where
  "attachPaywalled st =
     (case results st of
        first # others \<Rightarrow>
          if length (paywalledUrls st) > 0
          then first\<lparr>attachedPaywalledUrls := Some (paywalledUrls st)\<rparr> # others
          else first # others
      | [] \<Rightarrow> [])"

definition recursiveCrawl :: "hyperbrowser \<Rightarrow> string list \<Rightarrow> string \<Rightarrow> string + ScrapedContent list" where
  "recursiveCrawl hb initialUrls topic =
     (case phase1 hb initialUrls of
        Inl e \<Rightarrow> Inl e
      | Inr st \<Rightarrow> Inr (attachPaywalled (phase2 hb st)))"

text \<open>
  What a crawl asks the scraping service for, in order: the initial batch, then the
  URLs queued but not crawled after phase 1.
\<close>

definition fetchedUrls :: "hyperbrowser \<Rightarrow> string list \<Rightarrow> string list" where
  "fetchedUrls hb initialUrls =
     (if \<not> apiKeyConfigured hb then []
      else initialBatch initialUrls
           @ (case phase1 hb initialUrls of Inl e \<Rightarrow> [] | Inr st \<Rightarrow> additionalUrls st))"


text \<open>The set \<open>allUrls\<close> as phase 1 leaves it.\<close>

definition urlsAfterPhase1 :: "hyperbrowser \<Rightarrow> string list \<Rightarrow> string list" where
  "urlsAfterPhase1 hb initialUrls =
     (case phase1 hb initialUrls of Inl e \<Rightarrow> [] | Inr st \<Rightarrow> allUrls st)"

subsection \<open>Example sites\<close>



text \<open>
  A second example site: three pages with eight documentation links each; no other
  page can be scraped.
\<close>

definition wide_site :: hyperbrowser where
  "wide_site =
     \<lparr>apiKeyConfigured = True,
      startAndWait = (\<lambda>u.
        if u = ''https://d.example/a'' then
          Inr ''[1](/docs/a1) [2](/docs/a2) [3](/docs/a3) [4](/docs/a4) [5](/docs/a5) [6](/docs/a6) [7](/docs/a7) [8](/docs/a8)''
        else if u = ''https://d.example/b'' then
          Inr ''[1](/docs/b1) [2](/docs/b2) [3](/docs/b3) [4](/docs/b4) [5](/docs/b5) [6](/docs/b6) [7](/docs/b7) [8](/docs/b8)''
        else if u = ''https://d.example/c'' then
          Inr ''[1](/docs/c1) [2](/docs/c2) [3](/docs/c3) [4](/docs/c4) [5](/docs/c5) [6](/docs/c6) [7](/docs/c7) [8](/docs/c8)''
        else Inl ''Scrape failed''),
      scoresAsPaywalled = (\<lambda>md u. False),
      today = 0\<rparr>"

section \<open>The result cache\<close>


text \<open>
  Time stamps are instants in milliseconds; the source holds them as ISO strings of
  equal length, which compare as the instants do.
\<close>

record CachedContent =
  topic :: string
  cc_urls :: "string list"
  content :: "ScrapedContent list"
  cachedAt :: int
  cc_expiresAt :: int








section \<open>Properties of the validator\<close>

subsection \<open>The cache\<close>

lemma map_of_map_set: "map_of (map_set k v m) k' = (if k' = k then Some v else map_of m k')"
  by (induction m) auto

lemma setCache_now [simp]: "now (setCache u r s) = now s"
  by (simp add: setCache_def evictOldest_def cleanCache_def Let_def)

lemma setCache_requests [simp]: "requests (setCache u r s) = requests s"
  by (simp add: setCache_def evictOldest_def cleanCache_def Let_def)

lemma setCache_lookup:
  "map_of (validationCache (setCache u r s)) u = Some \<lparr>result = r, expiresAt = now s + CACHE_TTL\<rparr>"
  by (simp add: setCache_def Let_def map_of_map_set evictOldest_def cleanCache_def)

lemma finish_lookup:
  "finish u v st fin err s = (r, s') \<Longrightarrow>
   map_of (validationCache s') u = Some \<lparr>result = r, expiresAt = now s' + CACHE_TTL\<rparr>"
  by (auto simp: finish_def Let_def setCache_lookup)

lemma getCached_hit:
  "map_of (validationCache s) u = Some e \<Longrightarrow> now s < expiresAt e \<Longrightarrow>
   getCached u s = (Some (result e), s)"
  by (simp add: getCached_def)

lemma validateUrl_hit:
  "map_of (validationCache s) u = Some e \<Longrightarrow> now s < expiresAt e \<Longrightarrow>
   validateUrl env u opts s = (result e, s)"
  by (subst validateUrl.simps) (simp add: getCached_hit)

lemma validateUrl_miss:
  "fst (getCached u s) = None \<Longrightarrow>
   validateUrl env u opts s = attempts env u opts 0 None (snd (getCached u s))"
  by (subst validateUrl.simps) (auto split: prod.splits)

subsection \<open>The branches of one attempt\<close>

lemma attempts_cases [case_names exhausted terminal noLocation tooMany follow break retry]:
  obtains
    (exhausted) "\<not> attempt \<le> cfg_retries opts"
      "attempts env u opts attempt lastError s = failed u lastError s"
  | (terminal) st loc s1 where "attempt \<le> cfg_retries opts"
      "probe env (cfg_timeout opts) u s = (Inr (st, loc), s1)" "\<not> (300 \<le> st \<and> st < 400)"
      "attempts env u opts attempt lastError s =
         finish u (200 \<le> st \<and> st < 300) st None
           (if 200 \<le> st \<and> st < 300 then None else Some (''HTTP '' @ string_of_int st)) s1"
  | (noLocation) st loc s1 where "attempt \<le> cfg_retries opts"
      "probe env (cfg_timeout opts) u s = (Inr (st, loc), s1)" "300 \<le> st" "st < 400"
      "loc = None \<or> loc = Some []"
      "attempts env u opts attempt lastError s =
         finish u False st None (Some ''Redirect with no Location header'') s1"
  | (tooMany) st location s1 where "attempt \<le> cfg_retries opts"
      "probe env (cfg_timeout opts) u s = (Inr (st, Some location), s1)" "300 \<le> st" "st < 400"
      "location \<noteq> []" "\<not> cfg_maxRedirects opts > 0"
      "attempts env u opts attempt lastError s =
         finish u False st None (Some ''Too many redirects'') s1"
  | (follow) st location s1 redirectResult s2 where "attempt \<le> cfg_retries opts"
      "probe env (cfg_timeout opts) u s = (Inr (st, Some location), s1)" "300 \<le> st" "st < 400"
      "location \<noteq> []" "cfg_maxRedirects opts > 0"
      "followed env u opts location s1 = (redirectResult, s2)"
      "attempts env u opts attempt lastError s =
         finish u (valid redirectResult) st
           (Some (orElse (finalUrl redirectResult) (redirectTarget env u location)))
           (error redirectResult) s2"
  | (break) e s1 msg where "attempt \<le> cfg_retries opts"
      "probe env (cfg_timeout opts) u s = (Inl e, s1)" "classify e = Break msg"
      "attempts env u opts attempt lastError s = failed u (Some msg) s1"
  | (retry) e s1 msg where "attempt \<le> cfg_retries opts"
      "probe env (cfg_timeout opts) u s = (Inl e, s1)" "classify e = Retry msg"
      "attempts env u opts attempt lastError s =
         attempts env u opts (attempt + 1) (Some msg)
           (if attempt < cfg_retries opts \<and> \<not> includesStr msg ''timeout''
            then s1\<lparr>now := now s1 + 500\<rparr> else s1)"
proof (cases "attempt \<le> cfg_retries opts")
  case False
  then have "attempts env u opts attempt lastError s = failed u lastError s"
    by (subst attempts.simps) simp
  with False show ?thesis by (rule exhausted)
next
  case True
  obtain pr s1 where p: "probe env (cfg_timeout opts) u s = (pr, s1)"
    by (cases "probe env (cfg_timeout opts) u s")
  show ?thesis
  proof (cases pr)
    case (Inl e)
    show ?thesis
    proof (cases "classify e")
      case (Retry msg)
      have "attempts env u opts attempt lastError s =
         attempts env u opts (attempt + 1) (Some msg)
           (if attempt < cfg_retries opts \<and> \<not> includesStr msg ''timeout''
            then s1\<lparr>now := now s1 + 500\<rparr> else s1)"
        by (subst attempts.simps) (simp add: True p Inl Retry)
      with True p Inl Retry show ?thesis by (auto intro: retry)
    next
      case (Break msg)
      have "attempts env u opts attempt lastError s = failed u (Some msg) s1"
        by (subst attempts.simps) (simp add: True p Inl Break)
      with True p Inl Break show ?thesis by (auto intro: break)
    qed
  next
    case (Inr x)
    obtain st loc where x: "x = (st, loc)" by (cases x)
    show ?thesis
    proof (cases "300 \<le> st \<and> st < 400")
      case False
      have "attempts env u opts attempt lastError s =
         finish u (200 \<le> st \<and> st < 300) st None
           (if 200 \<le> st \<and> st < 300 then None else Some (''HTTP '' @ string_of_int st)) s1"
        by (subst attempts.simps) (use False in \<open>auto simp add: True p Inr x\<close>)
      with True p Inr x False show ?thesis by (auto intro: terminal)
    next
      case redirect: True
      show ?thesis
      proof (cases "loc = None \<or> loc = Some []")
        case True
        have "attempts env u opts attempt lastError s =
           finish u False st None (Some ''Redirect with no Location header'') s1"
          by (subst attempts.simps) (use True redirect in \<open>auto simp add: \<open>attempt \<le> cfg_retries opts\<close> p Inr x\<close>)
        with \<open>attempt \<le> cfg_retries opts\<close> p Inr x redirect True show ?thesis
          by (auto intro: noLocation)
      next
        case False
        then obtain location where loc: "loc = Some location" "location \<noteq> []" by (cases loc) auto
        show ?thesis
        proof (cases "cfg_maxRedirects opts > 0")
          case False
          have "attempts env u opts attempt lastError s =
             finish u False st None (Some ''Too many redirects'') s1"
            by (subst attempts.simps) (use False redirect in \<open>auto simp add: True p Inr x loc\<close>)
          with True p Inr x redirect loc False show ?thesis by (auto intro: tooMany)
        next
          case budget: True
          obtain rr s2 where f: "followed env u opts location s1 = (rr, s2)"
            by (cases "followed env u opts location s1")
          have "attempts env u opts attempt lastError s =
             finish u (valid rr) st
               (Some (orElse (finalUrl rr) (redirectTarget env u location))) (error rr) s2"
            by (subst attempts.simps)
              (use budget redirect f in \<open>auto simp add: True p Inr x loc followed_def\<close>)
          with True p Inr x redirect loc budget f show ?thesis by (auto intro: follow)
        qed
      qed
    qed
  qed
qed

lemma attempts_finish:
  "\<exists>v st fin err s0. attempts env u opts attempt lastError s = finish u v st fin err s0"
proof (induction "nat (cfg_retries opts + 1 - attempt)" arbitrary: attempt lastError s)
  case 0
  then have "\<not> attempt \<le> cfg_retries opts" by simp
  then have "attempts env u opts attempt lastError s = failed u lastError s"
    by (subst attempts.simps) simp
  then show ?case unfolding failed_def by blast
next
  case (Suc n)
  show ?case
  proof (cases rule: attempts_cases [of attempt opts env u lastError s])
    case (retry e s1 msg)
    have "n = nat (cfg_retries opts + 1 - (attempt + 1))" using Suc.hyps(2) by simp
    from Suc.hyps(1) [OF this] retry(4) show ?thesis by simp
  next
    case exhausted
    then show ?thesis unfolding failed_def by blast
  next
    case (break e s1 msg)
    then show ?thesis unfolding failed_def by blast
  qed blast+
qed

lemma attempts_stores:
  assumes "attempts env u opts attempt lastError s = (r, s')"
  shows "map_of (validationCache s') u = Some \<lparr>result = r, expiresAt = now s' + CACHE_TTL\<rparr>"
proof -
  obtain v st fin err s0 where "attempts env u opts attempt lastError s = finish u v st fin err s0"
    using attempts_finish by blast
  with assms have "finish u v st fin err s0 = (r, s')" by simp
  then show ?thesis by (rule finish_lookup)
qed

lemma validateUrl_stores:
  assumes "fst (getCached u s) = None" and "validateUrl env u opts s = (r, s')"
  shows "map_of (validationCache s') u = Some \<lparr>result = r, expiresAt = now s' + CACHE_TTL\<rparr>"
  using assms by (auto simp: validateUrl_miss dest: attempts_stores)

subsection \<open>Results are cached for five minutes\<close>

text \<open>
  C7. A call of \<open>validateUrl\<close> that is not answered from the cache stores its result,
  valid or not, under the URL with an expiry of five minutes after the moment it
  returns; a second call for the same URL less than five minutes later returns that
  stored result and sends no request.
\<close>

theorem validateUrl_served_from_cache:
  assumes "fst (getCached u s) = None" and "validateUrl env u opts s = (r, s')"
    and "0 \<le> d" and "d < CACHE_TTL"
  shows "map_of (validationCache s') u = Some \<lparr>result = r, expiresAt = now s' + CACHE_TTL\<rparr>
       \<and> validateUrl env u opts (later d s') = (r, later d s')
       \<and> requests (later d s') = requests s'"
proof -
  have stored: "map_of (validationCache s') u = Some \<lparr>result = r, expiresAt = now s' + CACHE_TTL\<rparr>"
    using assms(1,2) by (rule validateUrl_stores)
  then have "map_of (validationCache (later d s')) u = Some \<lparr>result = r, expiresAt = now s' + CACHE_TTL\<rparr>"
    by (simp add: later_def)
  moreover have "now (later d s') < expiresAt \<lparr>result = r, expiresAt = now s' + CACHE_TTL\<rparr>"
    using assms(4) by (simp add: later_def)
  ultimately have "validateUrl env u opts (later d s') = (result \<lparr>result = r, expiresAt = now s' + CACHE_TTL\<rparr>, later d s')"
    by (rule validateUrl_hit)
  with stored show ?thesis by (simp add: later_def)
qed

theorem validateUrl_served_from_cache_witness:
  "fst (getCached ''https://a.example/missing'' fresh) = None
   \<and> validateUrl example_platform ''https://a.example/missing'' no_options fresh =
       (\<lparr>url = ''https://a.example/missing'', valid = False, status = 404, finalUrl = None,
          error = Some ''HTTP 404'', checkedAt = 30\<rparr>,
        \<lparr>validationCache =
           [(''https://a.example/missing'',
             \<lparr>result =
                \<lparr>url = ''https://a.example/missing'', valid = False, status = 404,
                   finalUrl = None, error = Some ''HTTP 404'', checkedAt = 30\<rparr>,
                expiresAt = 300030\<rparr>)],
           now = 30, requests = [(HEAD, ''https://a.example/missing'')]\<rparr>)
   \<and> validateUrl example_platform ''https://a.example/missing'' no_options
        \<lparr>validationCache =
           [(''https://a.example/missing'',
             \<lparr>result =
                \<lparr>url = ''https://a.example/missing'', valid = False, status = 404,
                   finalUrl = None, error = Some ''HTTP 404'', checkedAt = 30\<rparr>,
                expiresAt = 300030\<rparr>)],
           now = 299999, requests = [(HEAD, ''https://a.example/missing'')]\<rparr> =
       (\<lparr>url = ''https://a.example/missing'', valid = False, status = 404, finalUrl = None,
          error = Some ''HTTP 404'', checkedAt = 30\<rparr>,
        \<lparr>validationCache =
           [(''https://a.example/missing'',
             \<lparr>result =
                \<lparr>url = ''https://a.example/missing'', valid = False, status = 404,
                   finalUrl = None, error = Some ''HTTP 404'', checkedAt = 30\<rparr>,
                expiresAt = 300030\<rparr>)],
           now = 299999, requests = [(HEAD, ''https://a.example/missing'')]\<rparr>)"
proof -
  have miss: "fst (getCached ''https://a.example/missing'' fresh) = None"
    by code_simp
  have call: "validateUrl example_platform ''https://a.example/missing'' no_options fresh =
       (\<lparr>url = ''https://a.example/missing'', valid = False, status = 404, finalUrl = None,
          error = Some ''HTTP 404'', checkedAt = 30\<rparr>,
        \<lparr>validationCache =
           [(''https://a.example/missing'',
             \<lparr>result =
                \<lparr>url = ''https://a.example/missing'', valid = False, status = 404,
                   finalUrl = None, error = Some ''HTTP 404'', checkedAt = 30\<rparr>,
                expiresAt = 300030\<rparr>)],
           now = 30, requests = [(HEAD, ''https://a.example/missing'')]\<rparr>)"
    by code_simp
  have "(0::int) \<le> 299969" and "299969 < CACHE_TTL" by (simp_all add: CACHE_TTL_def)
  from validateUrl_served_from_cache [OF miss call this] miss call
  show ?thesis by (simp add: later_def)
qed

subsection \<open>Well-formed results\<close>

lemma set_map_set: "set (map_set k v m) \<subseteq> insert (k, v) (set m)"
  by (induction m) auto

lemma set_fold_map_delete: "set (fold map_delete ks m) \<subseteq> set m"
proof (induction ks arbitrary: m)
  case Nil
  show ?case by simp
next
  case (Cons k ks)
  have "set (fold map_delete ks (map_delete k m)) \<subseteq> set (map_delete k m)" by (rule Cons.IH)
  also have "\<dots> \<subseteq> set m" by (auto simp: map_delete_def)
  finally show ?case by simp
qed

lemma set_setCache:
  "set (validationCache (setCache u r s))
     \<subseteq> insert (u, \<lparr>result = r, expiresAt = now s + CACHE_TTL\<rparr>) (set (validationCache s))"
proof -
  have "set (validationCache (evictOldest (cleanCache s))) \<subseteq> set (validationCache s)"
    using set_fold_map_delete [of _ "validationCache (cleanCache s)"]
    by (auto simp: evictOldest_def Let_def cleanCache_def)
  moreover have "now (evictOldest (cleanCache s)) = now s"
    by (simp add: evictOldest_def Let_def cleanCache_def)
  ultimately show ?thesis
    using set_map_set [of u _ "validationCache (evictOldest (cleanCache s))"]
          set_map_set [of u _ "validationCache s"]
    by (auto simp: setCache_def Let_def)
qed

lemma finish_wf:
  assumes "cacheWellFormed s" and "finish u v st fin err s = (r, s')"
    and "wellFormed \<lparr>url = u, valid = v, status = st, finalUrl = fin, error = err, checkedAt = now s\<rparr>"
  shows "url r = u \<and> wellFormed r \<and> cacheWellFormed s'"
proof -
  from assms(2) have r: "r = \<lparr>url = u, valid = v, status = st, finalUrl = fin, error = err, checkedAt = now s\<rparr>"
    and s': "s' = setCache u r s"
    by (auto simp: finish_def Let_def)
  have "cacheWellFormed (setCache u r s)"
    unfolding cacheWellFormed_def
  proof
    fix kv assume "kv \<in> set (validationCache (setCache u r s))"
    with set_setCache [of u r s]
    have "kv = (u, \<lparr>result = r, expiresAt = now s + CACHE_TTL\<rparr>) \<or> kv \<in> set (validationCache s)"
      by auto
    then show "url (result (snd kv)) = fst kv \<and> wellFormed (result (snd kv))"
      using assms(1,3) r by (auto simp: cacheWellFormed_def)
  qed
  with r s' assms(3) show ?thesis by simp
qed

lemma failed_wf:
  assumes "cacheWellFormed s" and "failed u lastError s = (r, s')"
  shows "url r = u \<and> wellFormed r \<and> cacheWellFormed s' \<and> \<not> valid r \<and> status r = 0"
proof -
  have "url r = u \<and> wellFormed r \<and> cacheWellFormed s'"
    using assms unfolding failed_def
    by (rule finish_wf) (auto simp: wellFormed_def split: option.splits)
  moreover have "\<not> valid r \<and> status r = 0"
    using assms(2) by (auto simp: failed_def finish_def Let_def)
  ultimately show ?thesis by simp
qed

lemma fetch_cache [simp]: "validationCache (snd (fetch env tmo m u s)) = validationCache s"
  by (simp add: fetch_def Let_def split: prod.splits)

lemma probe_cache [simp]: "validationCache (snd (probe env tmo u s)) = validationCache s"
proof -
  have "\<And>s. validationCache (snd (fetch env tmo GET u s)) = validationCache s" by simp
  then show ?thesis
    unfolding probe_def
    by (auto split: prod.splits reply.splits simp del: fetch_cache)
      (metis fetch_cache snd_conv)+
qed

lemma probe_wf: "probe env tmo u s = (x, s1) \<Longrightarrow> cacheWellFormed s \<Longrightarrow> cacheWellFormed s1"
  using probe_cache [of env tmo u s] by (simp add: cacheWellFormed_def)

lemma getCached_wf:
  assumes "cacheWellFormed s"
  shows "cacheWellFormed (snd (getCached u s))"
    and "fst (getCached u s) = Some r \<Longrightarrow> url r = u \<and> wellFormed r \<and> snd (getCached u s) = s"
proof -
  show "cacheWellFormed (snd (getCached u s))"
    using assms by (auto simp: getCached_def cacheWellFormed_def map_delete_def split: option.splits)
  assume "fst (getCached u s) = Some r"
  then obtain e where e: "map_of (validationCache s) u = Some e" "result e = r" "snd (getCached u s) = s"
    by (auto simp: getCached_def split: option.splits if_splits)
  from e(1) have "(u, e) \<in> set (validationCache s)" by (rule map_of_SomeD)
  with assms e show "url r = u \<and> wellFormed r \<and> snd (getCached u s) = s"
    by (auto simp: cacheWellFormed_def)
qed

lemma attempts_wf:
  assumes rec: "\<And>location s1 rr s2. 0 < cfg_maxRedirects opts \<Longrightarrow> cacheWellFormed s1 \<Longrightarrow>
      followed env u opts location s1 = (rr, s2) \<Longrightarrow> wellFormed rr \<and> cacheWellFormed s2"
    and "cacheWellFormed s" and "attempts env u opts attempt lastError s = (r, s')"
  shows "url r = u \<and> wellFormed r \<and> cacheWellFormed s'"
  using assms(2,3)
proof (induction "nat (cfg_retries opts + 1 - attempt)" arbitrary: attempt lastError s)
  case 0
  then have "\<not> attempt \<le> cfg_retries opts" by simp
  then have "attempts env u opts attempt lastError s = failed u lastError s"
    by (subst attempts.simps) simp
  with 0 show ?case using failed_wf by metis
next
  case (Suc n)
  show ?case
  proof (cases rule: attempts_cases [of attempt opts env u lastError s])
    case exhausted
    with Suc.prems show ?thesis using failed_wf by metis
  next
    case (terminal st loc s1)
    have "cacheWellFormed s1" using terminal(2) Suc.prems(1) by (rule probe_wf)
    moreover have "finish u (200 \<le> st \<and> st < 300) st None
           (if 200 \<le> st \<and> st < 300 then None else Some (''HTTP '' @ string_of_int st)) s1 = (r, s')"
      using terminal(4) Suc.prems(2) by simp
    ultimately show ?thesis
      by (rule finish_wf) (use terminal(3) in \<open>auto simp: wellFormed_def\<close>)
  next
    case (noLocation st loc s1)
    have "cacheWellFormed s1" using noLocation(2) Suc.prems(1) by (rule probe_wf)
    moreover have "finish u False st None (Some ''Redirect with no Location header'') s1 = (r, s')"
      using noLocation(6) Suc.prems(2) by simp
    ultimately show ?thesis
      by (rule finish_wf) (use noLocation(3,4) in \<open>auto simp: wellFormed_def\<close>)
  next
    case (tooMany st location s1)
    have "cacheWellFormed s1" using tooMany(2) Suc.prems(1) by (rule probe_wf)
    moreover have "finish u False st None (Some ''Too many redirects'') s1 = (r, s')"
      using tooMany(7) Suc.prems(2) by simp
    ultimately show ?thesis
      by (rule finish_wf) (use tooMany(3,4) in \<open>auto simp: wellFormed_def\<close>)
  next
    case (follow st location s1 rr s2)
    have "cacheWellFormed s1" using follow(2) Suc.prems(1) by (rule probe_wf)
    with rec follow(6,7) have rr: "wellFormed rr" and c2: "cacheWellFormed s2" by blast+
    have fin: "finish u (valid rr) st
        (Some (orElse (finalUrl rr) (redirectTarget env u location))) (error rr) s2 = (r, s')"
      using follow(8) Suc.prems(2) by simp
    have "wellFormed \<lparr>url = u, valid = valid rr, status = st,
        finalUrl = Some (orElse (finalUrl rr) (redirectTarget env u location)),
        error = error rr, checkedAt = now s2\<rparr>"
      using follow(3,4) rr by (simp add: wellFormed_def)
    with c2 fin show ?thesis by (rule finish_wf)
  next
    case (break e s1 msg)
    have "cacheWellFormed s1" using break(2) Suc.prems(1) by (rule probe_wf)
    with break(4) Suc.prems(2) show ?thesis using failed_wf by metis
  next
    case (retry e s1 msg)
    have n: "n = nat (cfg_retries opts + 1 - (attempt + 1))" using Suc.hyps(2) by simp
    have "cacheWellFormed s1" using retry(2) Suc.prems(1) by (rule probe_wf)
    then have "cacheWellFormed (if attempt < cfg_retries opts \<and> \<not> includesStr msg ''timeout''
            then s1\<lparr>now := now s1 + 500\<rparr> else s1)"
      by (simp add: cacheWellFormed_def)
    from Suc.hyps(1) [OF n this] retry(4) Suc.prems(2) show ?thesis by simp
  qed
qed

lemma validateUrl_wf:
  assumes "cacheWellFormed s" and "validateUrl env u opts s = (r, s')"
  shows "url r = u \<and> wellFormed r \<and> cacheWellFormed s'"
  using assms
proof (induction "nat (cfg_maxRedirects opts)" arbitrary: opts u s r s' rule: less_induct)
  case less
  show ?case
  proof (cases "fst (getCached u s)")
    case (Some cached)
    with getCached_wf(2) [OF less.prems(1), of u cached]
    have "url cached = u \<and> wellFormed cached \<and> snd (getCached u s) = s" by simp
    moreover have "validateUrl env u opts s = (cached, snd (getCached u s))"
      using Some by (subst validateUrl.simps) (auto split: prod.splits)
    ultimately show ?thesis using less.prems by simp
  next
    case None
    have rec: "wellFormed rr \<and> cacheWellFormed s2"
      if "0 < cfg_maxRedirects opts" "cacheWellFormed s1" "followed env u opts location s1 = (rr, s2)"
      for location s1 rr s2
    proof -
      have "nat (cfg_maxRedirects (opts\<lparr>maxRedirects := Some (cfg_maxRedirects opts - 1)\<rparr>))
              < nat (cfg_maxRedirects opts)"
        using that(1) by (simp add: cfg_maxRedirects_def)
      from less.hyps [OF this that(2)] that(3) show ?thesis by (simp add: followed_def)
    qed
    have "attempts env u opts 0 None (snd (getCached u s)) = (r, s')"
      using None less.prems(2) by (simp add: validateUrl_miss)
    with rec getCached_wf(1) [OF less.prems(1), of u] show ?thesis
      by (rule attempts_wf)
  qed
qed

subsection \<open>Failing closed\<close>

lemma failed_result:
  "failed u lastError s = (r, s') \<Longrightarrow>
   \<not> valid r \<and> status r = 0 \<and> finalUrl r = None \<and> error r \<noteq> None \<and> error r \<noteq> Some []"
  by (auto simp: failed_def finish_def Let_def split: option.splits if_splits)

lemma unreachable_probe:
  assumes "unreachable env tmo u"
  shows "\<exists>e s1. probe env tmo u s = (Inl e, s1)"
proof -
  obtain latency rep where n: "network env (requests s) (HEAD, u) = (latency, rep)"
    by (cases "network env (requests s) (HEAD, u)")
  with assms have "(\<exists>e. rep = Throws e) \<or> \<not> int latency < tmo"
    unfolding unreachable_def by (metis fst_conv snd_conv)
  then have "\<exists>e s1. fetch env tmo HEAD u s = (Throws e, s1)"
    using n by (auto simp: fetch_def Let_def)
  then show ?thesis by (auto simp: probe_def)
qed

lemma attempts_unreachable:
  assumes "unreachable env (cfg_timeout opts) u"
    and "attempts env u opts attempt lastError s = (r, s')"
  shows "\<not> valid r \<and> status r = 0"
  using assms(2)
proof (induction "nat (cfg_retries opts + 1 - attempt)" arbitrary: attempt lastError s)
  case 0
  then have "\<not> attempt \<le> cfg_retries opts" by simp
  then have "attempts env u opts attempt lastError s = failed u lastError s"
    by (subst attempts.simps) simp
  with 0 show ?case using failed_result by metis
next
  case (Suc n)
  obtain e s1 where p: "probe env (cfg_timeout opts) u s = (Inl e, s1)"
    using unreachable_probe [OF assms(1)] by blast
  show ?case
  proof (cases rule: attempts_cases [of attempt opts env u lastError s])
    case exhausted
    with Suc.prems show ?thesis using failed_result by metis
  next
    case (break e s1 msg)
    with Suc.prems show ?thesis using failed_result by metis
  next
    case (retry e s1 msg)
    have "n = nat (cfg_retries opts + 1 - (attempt + 1))" using Suc.hyps(2) by simp
    from Suc.hyps(1) [OF this] retry(4) Suc.prems show ?thesis by simp
  qed (use p in simp_all)
qed

text \<open>
  C6. \<open>validateUrl\<close> is a total function into results: every value that \<open>fetch\<close> can
  throw is classified by the \<open>catch\<close> block and ends in a stored result. For every URL
  string and every options record, on a cache that holds only well-formed results (the
  empty cache does, and every call keeps it so), a result that is not valid carries a
  non-empty error text; and when the URL is not cached and its probe can only throw or
  time out (no connection, timeout, malformed URL), the result is not valid and has
  status 0.
\<close>

theorem validateUrl_fails_closed:
  assumes "cacheWellFormed s" and "validateUrl env u opts s = (r, s')"
  shows "(\<not> valid r \<longrightarrow> error r \<noteq> None \<and> error r \<noteq> Some [])
       \<and> cacheWellFormed s'
       \<and> (fst (getCached u s) = None \<and> unreachable env (cfg_timeout opts) u
            \<longrightarrow> \<not> valid r \<and> status r = 0)"
proof -
  from validateUrl_wf [OF assms] have "wellFormed r" and "cacheWellFormed s'" by simp_all
  then have "(\<not> valid r \<longrightarrow> error r \<noteq> None \<and> error r \<noteq> Some []) \<and> cacheWellFormed s'"
    by (simp add: wellFormed_def)
  moreover have "\<not> valid r \<and> status r = 0"
    if "fst (getCached u s) = None" "unreachable env (cfg_timeout opts) u"
  proof -
    from that(1) assms(2) have "attempts env u opts 0 None (snd (getCached u s)) = (r, s')"
      by (simp add: validateUrl_miss)
    with that(2) show ?thesis by (rule attempts_unreachable)
  qed
  ultimately show ?thesis by blast
qed

theorem validateUrl_fails_closed_witness:
  "cacheWellFormed fresh
   \<and> fst (getCached ''not-a-url'' fresh) = None
   \<and> unreachable example_platform (cfg_timeout no_options) ''not-a-url''
   \<and> fst (validateUrl example_platform ''not-a-url'' no_options fresh) =
       \<lparr>url = ''not-a-url'', valid = False, status = 0, finalUrl = None,
        error = Some ''Network error: fetch failed'', checkedAt = 520\<rparr>"
proof -
  have wf: "cacheWellFormed fresh" by (simp add: cacheWellFormed_def fresh_def)
  have miss: "fst (getCached ''not-a-url'' fresh) = None" by code_simp
  have un: "unreachable example_platform (cfg_timeout no_options) ''not-a-url''"
    by (simp add: unreachable_def example_platform_def example_network_def)
  have r: "fst (validateUrl example_platform ''not-a-url'' no_options fresh) =
       \<lparr>url = ''not-a-url'', valid = False, status = 0, finalUrl = None,
        error = Some ''Network error: fetch failed'', checkedAt = 520\<rparr>"
    by code_simp
  have call: "validateUrl example_platform ''not-a-url'' no_options fresh =
      (fst (validateUrl example_platform ''not-a-url'' no_options fresh),
       snd (validateUrl example_platform ''not-a-url'' no_options fresh))" by simp
  from validateUrl_fails_closed [OF wf call] wf miss un r show ?thesis by simp
qed

subsection \<open>Timeouts\<close>

lemma getCached_clock [simp]:
  "now (snd (getCached u s)) = now s" "requests (snd (getCached u s)) = requests s"
  by (simp_all add: getCached_def split: option.splits)

lemma timeout_result:
  assumes "0 \<le> cfg_retries opts"
    and "probe env (cfg_timeout opts) u s = (Inl (Error ''AbortError'' msg), s1)"
    and "attempts env u opts 0 lastError s = (r, s')"
  shows "r = \<lparr>url = u, valid = False, status = 0, finalUrl = None,
              error = Some ''Request timeout'', checkedAt = now s1\<rparr>
       \<and> now s' = now s1 \<and> requests s' = requests s1"
proof (cases rule: attempts_cases [of 0 opts env u lastError s])
  case (break e s1' msg')
  with assms(2) have "msg' = ''Request timeout''" "s1' = s1" by (auto simp: classify_def)
  with break(4) assms(3) show ?thesis by (auto simp: failed_def finish_def Let_def)
next
  case (retry e s1' msg')
  with assms(2) show ?thesis by (auto simp: classify_def)
qed (use assms(1,2) in simp_all)

text \<open>
  C5, as amended. When the first probe of a URL that is not cached ends in a timeout,
  \<open>validateUrl\<close> returns the invalid result \<open>Request timeout\<close> with status 0 after that
  one attempt, for every \<open>retries \<ge> 0\<close>. If the \<open>HEAD\<close> request itself times out, one
  request was sent and the clock has advanced by one timeout. If \<open>HEAD\<close> was answered
  405 or 501 and the fallback \<open>GET\<close> timed out, two requests were sent and the clock has
  advanced by the latency of the \<open>HEAD\<close> answer plus one timeout.
\<close>

theorem timeout_not_retried:
  assumes "fst (getCached u s) = None" and "0 \<le> cfg_retries opts"
    and "validateUrl env u opts s = (r, s')"
    and "network env (requests s) (HEAD, u) = (latency, rep)"
    and "network env (requests s @ [(HEAD, u)]) (GET, u) = (latency', rep')"
  shows "(\<not> int latency < cfg_timeout opts \<longrightarrow>
            \<not> valid r \<and> status r = 0 \<and> error r = Some ''Request timeout''
            \<and> requests s' = requests s @ [(HEAD, u)]
            \<and> now s' = now s + max 0 (cfg_timeout opts))
       \<and> (int latency < cfg_timeout opts \<and> (\<exists>loc. rep = Response 405 loc \<or> rep = Response 501 loc)
            \<and> \<not> int latency' < cfg_timeout opts \<longrightarrow>
            \<not> valid r \<and> status r = 0 \<and> error r = Some ''Request timeout''
            \<and> requests s' = requests s @ [(HEAD, u), (GET, u)]
            \<and> now s' = now s + int latency + max 0 (cfg_timeout opts))"
proof -
  let ?s0 = "snd (getCached u s)"
  have att: "attempts env u opts 0 None ?s0 = (r, s')"
    using assms(1,3) by (simp add: validateUrl_miss)
  have first: ?thesis if "\<not> int latency < cfg_timeout opts"
  proof -
    have "probe env (cfg_timeout opts) u ?s0 =
        (Inl (Error ''AbortError'' ''This operation was aborted''),
         ?s0\<lparr>requests := requests s @ [(HEAD, u)], now := now s + max 0 (cfg_timeout opts)\<rparr>)"
      using that assms(4) by (simp add: probe_def fetch_def Let_def)
    from timeout_result [OF assms(2) this att] that show ?thesis by simp
  qed
  have second: ?thesis
    if "int latency < cfg_timeout opts" "rep = Response 405 loc \<or> rep = Response 501 loc"
       "\<not> int latency' < cfg_timeout opts" for loc
  proof -
    have "probe env (cfg_timeout opts) u ?s0 =
        (Inl (Error ''AbortError'' ''This operation was aborted''),
         ?s0\<lparr>requests := requests s @ [(HEAD, u), (GET, u)],
              now := now s + int latency + max 0 (cfg_timeout opts)\<rparr>)"
      using that assms(4,5) by (auto simp: probe_def fetch_def Let_def)
    from timeout_result [OF assms(2) this att] that show ?thesis by simp
  qed
  from first second show ?thesis by blast
qed

text \<open>The equations that run the validator on a concrete platform.\<close>

lemmas validator_eval =
  validateUrl.simps attempts.simps getCached_def map_delete_def setCache_def finish_def failed_def
  probe_def fetch_def redirectTarget_def classify_def orElse_def Let_def
  cfg_retries_def cfg_timeout_def cfg_maxRedirects_def cfg_concurrency_def
  DEFAULT_retries_def DEFAULT_timeout_def DEFAULT_maxRedirects_def DEFAULT_concurrency_def
  MAX_CACHE_SIZE_def CACHE_TTL_def
  example_platform_def example_network_def no_options_def fresh_def

theorem timeout_not_retried_witness:
  "fst (getCached ''https://a.example/slow'' fresh) = None
   \<and> 0 \<le> cfg_retries (no_options\<lparr>retries := Some 2\<rparr>)
   \<and> \<not> int 60000 < cfg_timeout (no_options\<lparr>retries := Some 2\<rparr>)
   \<and> error (fst (validateUrl example_platform ''https://a.example/slow''
                   (no_options\<lparr>retries := Some 2\<rparr>) fresh)) = Some ''Request timeout''
   \<and> requests (snd (validateUrl example_platform ''https://a.example/slow''
                   (no_options\<lparr>retries := Some 2\<rparr>) fresh)) = [(HEAD, ''https://a.example/slow'')]
   \<and> now (snd (validateUrl example_platform ''https://a.example/slow''
                   (no_options\<lparr>retries := Some 2\<rparr>) fresh)) = 5000
   \<and> fst (getCached ''https://a.example/nohead'' fresh) = None
   \<and> int 4000 < cfg_timeout (no_options\<lparr>retries := Some 2\<rparr>)
   \<and> error (fst (validateUrl example_platform ''https://a.example/nohead''
                   (no_options\<lparr>retries := Some 2\<rparr>) fresh)) = Some ''Request timeout''
   \<and> requests (snd (validateUrl example_platform ''https://a.example/nohead''
                   (no_options\<lparr>retries := Some 2\<rparr>) fresh)) =
         [(HEAD, ''https://a.example/nohead''), (GET, ''https://a.example/nohead'')]
   \<and> now (snd (validateUrl example_platform ''https://a.example/nohead''
                   (no_options\<lparr>retries := Some 2\<rparr>) fresh)) = 9000"
proof -
  let ?opts = "no_options\<lparr>retries := Some 2\<rparr>"
  have r: "0 \<le> cfg_retries ?opts" and t: "cfg_timeout ?opts = 5000"
    by (simp_all add: cfg_retries_def cfg_timeout_def no_options_def DEFAULT_timeout_def)
  have m1: "fst (getCached ''https://a.example/slow'' fresh) = None"
    and m2: "fst (getCached ''https://a.example/nohead'' fresh) = None"
    by (simp_all add: getCached_def fresh_def)
  have n1: "network example_platform (requests fresh) (HEAD, ''https://a.example/slow'') =
      (60000, Response 200 None)"
    and n1': "network example_platform (requests fresh @ [(HEAD, ''https://a.example/slow'')])
      (GET, ''https://a.example/slow'') = (10, Throws (TypeError ''fetch failed''))"
    and n2: "network example_platform (requests fresh) (HEAD, ''https://a.example/nohead'') =
      (4000, Response 405 None)"
    and n2': "network example_platform (requests fresh @ [(HEAD, ''https://a.example/nohead'')])
      (GET, ''https://a.example/nohead'') = (60000, Response 200 None)"
    by (simp_all add: example_platform_def example_network_def)
  have c1: "validateUrl example_platform ''https://a.example/slow'' ?opts fresh =
      (fst (validateUrl example_platform ''https://a.example/slow'' ?opts fresh),
       snd (validateUrl example_platform ''https://a.example/slow'' ?opts fresh))" by simp
  have c2: "validateUrl example_platform ''https://a.example/nohead'' ?opts fresh =
      (fst (validateUrl example_platform ''https://a.example/nohead'' ?opts fresh),
       snd (validateUrl example_platform ''https://a.example/nohead'' ?opts fresh))" by simp
  note a = timeout_not_retried [OF m1 r c1 n1 n1']
  note b = timeout_not_retried [OF m2 r c2 n2 n2']
  from a b r t m1 m2 show ?thesis by (simp add: fresh_def)
qed

text \<open>
  The URL \<open>https://a.example/nohead\<close> answers \<open>HEAD\<close> with 405 after four seconds and
  never answers the \<open>GET\<close>: with the default timeout of five seconds the call ends in
  \<open>Request timeout\<close> after two requests and nine seconds, more than one timeout.
\<close>

theorem timeout_bound_counterexample:
  "error (fst (validateUrl example_platform ''https://a.example/nohead'' no_options fresh))
     = Some ''Request timeout''
   \<and> requests (snd (validateUrl example_platform ''https://a.example/nohead'' no_options fresh))
     = [(HEAD, ''https://a.example/nohead''), (GET, ''https://a.example/nohead'')]
   \<and> now (snd (validateUrl example_platform ''https://a.example/nohead'' no_options fresh))
       - now fresh = 9000
   \<and> \<not> now (snd (validateUrl example_platform ''https://a.example/nohead'' no_options fresh))
       - now fresh \<le> cfg_timeout no_options"
  by (simp add: validator_eval)

subsection \<open>Redirect chains\<close>



lemma cfg_follow [simp]:
  "cfg_timeout (opts\<lparr>maxRedirects := m\<rparr>) = cfg_timeout opts"
  "cfg_retries (opts\<lparr>maxRedirects := m\<rparr>) = cfg_retries opts"
  "cfg_maxRedirects (opts\<lparr>maxRedirects := Some k\<rparr>) = k"
  by (simp_all add: cfg_timeout_def cfg_retries_def cfg_maxRedirects_def)




subsection \<open>The shape of a result\<close>





subsection \<open>The cache key is the URL alone\<close>

lemma setCache_other:
  assumes "length (validationCache s) < MAX_CACHE_SIZE" and "k \<noteq> u"
  shows "map_of (validationCache (setCache u r s)) k = map_of (validationCache s) k"
  using assms by (simp add: setCache_def Let_def map_of_map_set)

text \<open>
  C10. The cache is looked up by the URL string before the options are used. Once a call
  for a URL that was not cached has returned, a call for the same URL less than five
  minutes later returns the same result whatever its options are. This holds for the
  redirect target too: when the first call follows a redirect to another URL that was
  not cached, the target's result, computed with \<open>maxRedirects - 1\<close>, is stored under
  the target (provided the store is below its size limit, so that nothing is evicted)
  and is returned to any later call for the target within five minutes, whatever budget
  that call has.
\<close>

theorem cache_ignores_options:
  assumes "fst (getCached u s) = None" and "validateUrl env u opts s = (r, s')"
    and "0 \<le> d" and "d < CACHE_TTL"
  shows "validateUrl env u opts' (later d s') = (r, later d s')
       \<and> (\<forall>st location s1 rr s2.
             0 \<le> cfg_retries opts
             \<and> probe env (cfg_timeout opts) u (snd (getCached u s)) = (Inr (st, Some location), s1)
             \<and> 300 \<le> st \<and> st < 400 \<and> location \<noteq> [] \<and> 0 < cfg_maxRedirects opts
             \<and> redirectTarget env u location \<noteq> u
             \<and> fst (getCached (redirectTarget env u location) s1) = None
             \<and> followed env u opts location s1 = (rr, s2)
             \<and> length (validationCache s2) < MAX_CACHE_SIZE
             \<longrightarrow> validateUrl env (redirectTarget env u location) opts' (later d s') = (rr, later d s'))"
proof -
  have stored: "map_of (validationCache s') u = Some \<lparr>result = r, expiresAt = now s' + CACHE_TTL\<rparr>"
    using assms(1,2) by (rule validateUrl_stores)
  have hit: "validateUrl env k opts' (later d s') = (x, later d s')"
    if "map_of (validationCache s') k = Some \<lparr>result = x, expiresAt = now s' + CACHE_TTL\<rparr>" for k x
  proof -
    from that have "map_of (validationCache (later d s')) k = Some \<lparr>result = x, expiresAt = now s' + CACHE_TTL\<rparr>"
      by (simp add: later_def)
    moreover have "now (later d s') < expiresAt \<lparr>result = x, expiresAt = now s' + CACHE_TTL\<rparr>"
      using assms(4) by (simp add: later_def)
    ultimately have "validateUrl env k opts' (later d s')
        = (result \<lparr>result = x, expiresAt = now s' + CACHE_TTL\<rparr>, later d s')"
      by (rule validateUrl_hit)
    then show ?thesis by simp
  qed
  have hop: "validateUrl env (redirectTarget env u location) opts' (later d s') = (rr, later d s')"
    if retries: "0 \<le> cfg_retries opts"
      and p: "probe env (cfg_timeout opts) u (snd (getCached u s)) = (Inr (st, Some location), s1)"
      and st: "300 \<le> st" "st < 400" and loc: "location \<noteq> []" and budget: "0 < cfg_maxRedirects opts"
      and other: "redirectTarget env u location \<noteq> u"
      and miss: "fst (getCached (redirectTarget env u location) s1) = None"
      and f: "followed env u opts location s1 = (rr, s2)"
      and room: "length (validationCache s2) < MAX_CACHE_SIZE"
    for st location s1 rr s2
  proof -
    let ?v = "redirectTarget env u location"
    have att: "attempts env u opts 0 None (snd (getCached u s)) = (r, s')"
      using assms(1,2) by (simp add: validateUrl_miss)
    have "finish u (valid rr) st (Some (orElse (finalUrl rr) ?v)) (error rr) s2 = (r, s')"
    proof (cases rule: attempts_cases [of 0 opts env u None "snd (getCached u s)"])
      case (follow st' location' s1' rr' s2')
      from follow(2) p have eq: "st' = st" "location' = location" "s1' = s1" by simp_all
      with follow(7) f have "rr' = rr" "s2' = s2" by simp_all
      with follow(8) eq att show ?thesis by simp
    qed (use retries p st loc budget in simp_all)
    then have s': "s' = setCache u r s2" by (auto simp: finish_def Let_def)
    have "map_of (validationCache s2) ?v = Some \<lparr>result = rr, expiresAt = now s2 + CACHE_TTL\<rparr>"
      using miss f unfolding followed_def by (rule validateUrl_stores)
    with room other s' have "map_of (validationCache s') ?v
        = Some \<lparr>result = rr, expiresAt = now s' + CACHE_TTL\<rparr>"
      by (simp add: setCache_other)
    then show ?thesis by (rule hit)
  qed
  from hit [OF stored] hop show ?thesis by blast
qed

theorem cache_ignores_options_witness:
  "fst (getCached ''https://a.example/first'' fresh) = None
   \<and> 0 \<le> cfg_retries (no_options\<lparr>maxRedirects := Some 1\<rparr>)
   \<and> 0 < cfg_maxRedirects (no_options\<lparr>maxRedirects := Some 1\<rparr>)
   \<and> probe example_platform (cfg_timeout (no_options\<lparr>maxRedirects := Some 1\<rparr>))
         ''https://a.example/first'' (snd (getCached ''https://a.example/first'' fresh))
       = (Inr (302, Some ''/old''),
          \<lparr>validationCache = [], now = 40, requests = [(HEAD, ''https://a.example/first'')]\<rparr>)
   \<and> redirectTarget example_platform ''https://a.example/first'' ''/old'' = ''https://a.example/old''
   \<and> error (fst (followed example_platform ''https://a.example/first''
        (no_options\<lparr>maxRedirects := Some 1\<rparr>) ''/old''
        \<lparr>validationCache = [], now = 40, requests = [(HEAD, ''https://a.example/first'')]\<rparr>))
       = Some ''Too many redirects''
   \<and> validateUrl example_platform ''https://a.example/old'' no_options
        (later 1000 (snd (validateUrl example_platform ''https://a.example/first''
           (no_options\<lparr>maxRedirects := Some 1\<rparr>) fresh)))
       = (fst (followed example_platform ''https://a.example/first''
            (no_options\<lparr>maxRedirects := Some 1\<rparr>) ''/old''
            \<lparr>validationCache = [], now = 40, requests = [(HEAD, ''https://a.example/first'')]\<rparr>),
          later 1000 (snd (validateUrl example_platform ''https://a.example/first''
           (no_options\<lparr>maxRedirects := Some 1\<rparr>) fresh)))
   \<and> valid (fst (validateUrl example_platform ''https://a.example/old'' no_options fresh))"
proof -
  let ?one = "no_options\<lparr>maxRedirects := Some 1\<rparr>"
  let ?s1 = "\<lparr>validationCache = [], now = 40, requests = [(HEAD, ''https://a.example/first'')]\<rparr>"
  have miss: "fst (getCached ''https://a.example/first'' fresh) = None"
    by (simp add: getCached_def fresh_def)
  have d: "(0::int) \<le> 1000" "1000 < CACHE_TTL" by (simp_all add: CACHE_TTL_def)
  have r: "0 \<le> cfg_retries ?one" and m: "0 < cfg_maxRedirects ?one"
    by (simp_all add: cfg_retries_def cfg_maxRedirects_def no_options_def DEFAULT_retries_def)
  have p: "probe example_platform (cfg_timeout ?one) ''https://a.example/first''
      (snd (getCached ''https://a.example/first'' fresh)) = (Inr (302, Some ''/old''), ?s1)"
    by (simp add: validator_eval)
  have t: "redirectTarget example_platform ''https://a.example/first'' ''/old'' = ''https://a.example/old''"
    by (simp add: validator_eval)
  have miss': "fst (getCached ''https://a.example/old'' ?s1) = None"
    by (simp add: getCached_def)
  have room: "length (validationCache (snd (followed example_platform ''https://a.example/first'' ?one ''/old'' ?s1)))
      < MAX_CACHE_SIZE"
    by (simp add: followed_def validator_eval)
  have e: "error (fst (followed example_platform ''https://a.example/first'' ?one ''/old'' ?s1))
      = Some ''Too many redirects''"
    by (simp add: followed_def validator_eval)
  have v: "valid (fst (validateUrl example_platform ''https://a.example/old'' no_options fresh))"
    by (simp add: validator_eval)
  note a = cache_ignores_options [where env = example_platform and opts = ?one and opts' = no_options,
      OF miss surjective_pairing d]
  then have "\<forall>st location s1 rr s2.
             0 \<le> cfg_retries ?one
             \<and> probe example_platform (cfg_timeout ?one) ''https://a.example/first''
                   (snd (getCached ''https://a.example/first'' fresh)) = (Inr (st, Some location), s1)
             \<and> 300 \<le> st \<and> st < 400 \<and> location \<noteq> [] \<and> 0 < cfg_maxRedirects ?one
             \<and> redirectTarget example_platform ''https://a.example/first'' location \<noteq> ''https://a.example/first''
             \<and> fst (getCached (redirectTarget example_platform ''https://a.example/first'' location) s1) = None
             \<and> followed example_platform ''https://a.example/first'' ?one location s1 = (rr, s2)
             \<and> length (validationCache s2) < MAX_CACHE_SIZE
             \<longrightarrow> validateUrl example_platform (redirectTarget example_platform ''https://a.example/first'' location)
                   no_options (later 1000 (snd (validateUrl example_platform ''https://a.example/first'' ?one fresh)))
                 = (rr, later 1000 (snd (validateUrl example_platform ''https://a.example/first'' ?one fresh)))"
    by (rule conjunct2)
  from this [rule_format, of 302 "''/old''" ?s1
      "fst (followed example_platform ''https://a.example/first'' ?one ''/old'' ?s1)"
      "snd (followed example_platform ''https://a.example/first'' ?one ''/old'' ?s1)"]
    r m p miss' room
  have "validateUrl example_platform ''https://a.example/old'' no_options
        (later 1000 (snd (validateUrl example_platform ''https://a.example/first'' ?one fresh)))
       = (fst (followed example_platform ''https://a.example/first'' ?one ''/old'' ?s1),
          later 1000 (snd (validateUrl example_platform ''https://a.example/first'' ?one fresh)))"
    by (simp add: t)
  with miss r m p t e v show ?thesis by simp
qed

subsection \<open>Batches\<close>

lemma validateBatch_Cons [simp]:
  "validateBatch env (u # us) opts s =
     (fst (validateUrl env u opts s) # fst (validateBatch env us opts (snd (validateUrl env u opts s))),
      snd (validateBatch env us opts (snd (validateUrl env u opts s))))"
  by (simp add: case_prod_unfold)

declare validateBatch.simps(2) [simp del]












section \<open>Properties of the result cache\<close>



section \<open>Properties of the crawler\<close>

subsection \<open>Sets in insertion order\<close>


lemma set_foldl_setAdd: "set (foldl setAdd xs ys) = set xs \<union> set ys"
  by (induction ys arbitrary: xs) (auto simp: setAdd_def)





subsection \<open>One page with three links\<close>





subsection \<open>The ceiling and repeated fetches\<close>

text \<open>
  C1. The crawl is seeded with four URLs of the second example site: three pages with
  eight links each and one URL that cannot be scraped. After phase 1 the set
  \<open>allUrls\<close> holds 28 URLs, more than \<open>MAX_TOTAL_URLS\<close>, and the seed that failed
  in phase 1 is handed to the scraper a second time in phase 2.
\<close>

theorem crawl_exceeds_ceiling:
  "length (urlsAfterPhase1 wide_site
      [''https://d.example/a'', ''https://d.example/b'', ''https://d.example/c'', ''https://d.example/x'']) = 28
   \<and> MAX_TOTAL_URLS = 25
   \<and> count_list (fetchedUrls wide_site
      [''https://d.example/a'', ''https://d.example/b'', ''https://d.example/c'', ''https://d.example/x''])
      ''https://d.example/x'' = 2"
  by code_simp

end
